theory Spec2Isabelle
  imports Complex_Main "HOL-Library.Word" "HOL-Library.AList" "HOL-Library.Sublist"
begin

section \<open>JavaScript strings\<close>

text \<open>
  A JavaScript string is a sequence of UTF-16 code units. String literals of the source
  are ASCII and are written through \<open>js\<close>.
\<close>

type_synonym jschar = "16 word"
type_synonym jsstring = "jschar list"

definition js :: "string \<Rightarrow> jsstring" where
  "js s = map of_char s"

text \<open>
  \<open>String.prototype.trim\<close> removes WhiteSpace and LineTerminator code points from both
  ends: TAB, VT, FF, SP, NBSP, ZWNBSP, the Unicode space separators, LF, CR, LS and PS.
  All of them are single code units.
\<close>

definition isWhiteSpace :: "jschar \<Rightarrow> bool" where
  "isWhiteSpace c \<longleftrightarrow>
     c = 0x9 \<or> c = 0xA \<or> c = 0xB \<or> c = 0xC \<or> c = 0xD \<or> c = 0x20 \<or> c = 0xA0 \<or>
     c = 0x1680 \<or> (0x2000 \<le> c \<and> c \<le> 0x200A) \<or> c = 0x2028 \<or> c = 0x2029 \<or>
     c = 0x202F \<or> c = 0x205F \<or> c = 0x3000 \<or> c = 0xFEFF"

definition trim :: "jsstring \<Rightarrow> jsstring" where
  "trim s = rev (dropWhile isWhiteSpace (rev (dropWhile isWhiteSpace s)))"

text \<open>ASCII lower-casing of a code unit: \<open>A\<close> to \<open>Z\<close> become \<open>a\<close> to \<open>z\<close>.\<close>

definition asciiLowercase :: "jschar \<Rightarrow> jschar" where
  "asciiLowercase c = (if 0x41 \<le> c \<and> c \<le> 0x5A then c + 0x20 else c)"

text \<open>
  Template literals print a non-negative integer below \<open>10^21\<close> as its decimal digits.
\<close>

fun dec :: "nat \<Rightarrow> jsstring" where
  "dec n = (if n < 10 then [of_nat (48 + n)] else dec (n div 10) @ [of_nat (48 + n mod 10)])"

declare dec.simps [simp del]


section \<open>The crawl list: progress heuristics\<close>

text \<open>
  The \<open>CrawlList\<close> component (imported as \<open>@/components/crawl-list\<close>; in the sources
  its text follows the Vite configuration). Its functions \<open>getEstimatedTime\<close> and
  \<open>getProgressPercentage\<close> both start with the same block:
  \<^verbatim>\<open>
    let totalSeconds = 60
    if (pages >= 10) {
      const groups = Math.floor(pages / 10) - 1
      totalSeconds += groups * 90
    }
  \<close>
  \<open>pages\<close> is the integer page count of the crawl.
\<close>

definition totalSeconds :: "int \<Rightarrow> int" where
  "totalSeconds pages =
     (if pages \<ge> 10 then (let groups = pages div 10 - 1 in 60 + groups * 90) else 60)"

text \<open>
  \<open>createdTime\<close> is \<open>new Date(createdAt).getTime()\<close> in milliseconds, \<open>None\<close> when the
  string is not a date (the source gets \<open>NaN\<close>); \<open>currentTime\<close> is \<open>Date.now()\<close>.
  With \<open>NaN\<close>, \<open>Math.max(0, NaN)\<close> is \<open>NaN\<close>, every comparison with it is false and
  the template prints \<open>NaN\<close>.
\<close>

definition getEstimatedTime :: "int \<Rightarrow> int option \<Rightarrow> int \<Rightarrow> jsstring" where
  "getEstimatedTime pages createdTime currentTime =
     (if pages = 0 then js ''N/A''
      else case createdTime of
        None \<Rightarrow> js ''NaNm NaNs remaining''
      | Some created \<Rightarrow>
         (let elapsedSeconds = (currentTime - created) div 1000;
              remainingSeconds = max 0 (totalSeconds pages - elapsedSeconds)
          in if remainingSeconds = 0 then js ''Almost done''
             else
              (let minutes = remainingSeconds div 60;
                   seconds = remainingSeconds mod 60
               in if minutes = 0 then dec (nat seconds) @ js ''s remaining''
                  else if seconds = 0 then dec (nat minutes) @ js ''m remaining''
                  else dec (nat minutes) @ js ''m '' @ dec (nat seconds) @ js ''s remaining'')))"

text \<open>
  The percentage is a JavaScript number: \<open>None\<close> is \<open>NaN\<close>. Division by zero does not
  raise in JavaScript: \<open>0 / 0\<close> is \<open>NaN\<close> and \<open>x / 0\<close> is an infinity of the sign of
  \<open>x\<close>, which the clamp turns into 100 or 0. Otherwise the quotient is taken in the
  reals; \<open>Math.min\<close> and \<open>Math.max\<close> are exact, so rounding of the quotient does not
  move the result out of the clamp.
\<close>

definition getProgressPercentage :: "int \<Rightarrow> int option \<Rightarrow> int \<Rightarrow> real option" where
  "getProgressPercentage pages createdTime currentTime =
     (if pages = 0 then Some 0
      else case createdTime of
        None \<Rightarrow> None
      | Some created \<Rightarrow>
         (let elapsedSeconds = (currentTime - created) div 1000
          in if totalSeconds pages = 0
             then (if elapsedSeconds = 0 then None
                   else if elapsedSeconds > 0 then Some 100 else Some 0)
             else Some (min 100 (max 0
                (real_of_int elapsedSeconds / real_of_int (totalSeconds pages) * 100)))))"


section \<open>The crawl list: status badge and downloads\<close>

text \<open>
  \<open>String.prototype.toLowerCase\<close> follows the Unicode case mapping; the functions below
  take it as the parameter \<open>toLowerCase\<close>. On a string of ASCII code units it is
  \<open>asciiToLowerCase\<close>.
\<close>

definition asciiToLowerCase :: "jsstring \<Rightarrow> jsstring" where
  "asciiToLowerCase s = map asciiLowercase s"

datatype icon = CheckCircle2 | Loader2 | AlertCircle | Clock

record status_config =
  color :: jsstring
  icon :: icon
  label :: jsstring

definition getStatusConfig :: "(jsstring \<Rightarrow> jsstring) \<Rightarrow> jsstring \<Rightarrow> status_config" where
  "getStatusConfig toLowerCase status =
     (let s = toLowerCase status
      in if s = js ''completed''
         then \<lparr>color = js ''bg-green-500/10 text-green-700 dark:text-green-400 border-green-500/20'',
               icon = CheckCircle2, label = js ''Completed''\<rparr>
         else if s = js ''in_progress'' \<or> s = js ''processing''
         then \<lparr>color = js ''bg-blue-500/10 text-blue-700 dark:text-blue-400 border-blue-500/20'',
               icon = Loader2, label = js ''In Progress''\<rparr>
         else if s = js ''failed''
         then \<lparr>color = js ''bg-red-500/10 text-red-700 dark:text-red-400 border-red-500/20'',
               icon = AlertCircle, label = js ''Failed''\<rparr>
         else if s = js ''pending''
         then \<lparr>color = js ''bg-yellow-500/10 text-yellow-700 dark:text-yellow-400 border-yellow-500/20'',
               icon = Clock, label = js ''Pending''\<rparr>
         else \<lparr>color = js ''bg-gray-500/10 text-gray-700 dark:text-gray-400 border-gray-500/20'',
               icon = Clock, label = status\<rparr>)"

text \<open>
  The download section of a crawl's card is rendered only when the lower-cased status
  is \<open>completed\<close> (\<open>None\<close> otherwise). Each of its two buttons is disabled when its
  handle is missing or empty, and opens the handle otherwise.
\<close>

datatype download_button = Disabled | Opens jsstring

definition downloadButton :: "jsstring option \<Rightarrow> download_button" where
  "downloadButton handle =
     (case handle of
        None \<Rightarrow> Disabled
      | Some url \<Rightarrow> if url = [] then Disabled else Opens url)"

definition downloadSection ::
  "(jsstring \<Rightarrow> jsstring) \<Rightarrow> jsstring \<Rightarrow> jsstring option \<Rightarrow> jsstring option
     \<Rightarrow> (download_button \<times> download_button) option" where
  "downloadSection toLowerCase status llms llms_full =
     (let isCompleted = (toLowerCase status = js ''completed'')
      in if isCompleted then Some (downloadButton llms, downloadButton llms_full) else None)"


section \<open>The crawl creation form\<close>

text \<open>
  The request body \<open>PostCrawl\<close> of the generated client. The form guards every read of
  \<open>url_filters\<close> with \<open>?.\<close> or \<open>|| []\<close>, so the field may be absent: \<open>None\<close>.
\<close>

record PostCrawl =
  website_url :: jsstring
  gemini_api_key :: jsstring
  url_filters :: "jsstring list option"

text \<open>
  The component's state, one field per \<open>useState\<close>. \<open>error\<close> is \<open>string | null\<close>;
  \<open>validationErrors\<close> is a \<open>Record<string, string>\<close>, kept as an association list, so
  that \<open>Object.keys(errors).length === 0\<close> is \<open>errors = []\<close>.
\<close>

record form_state =
  formData :: PostCrawl
  urlFilterInput :: jsstring
  isLoading :: bool
  error :: "jsstring option"
  success :: bool
  validationErrors :: "(string \<times> jsstring) list"

definition initialFormData :: PostCrawl where
  "initialFormData = \<lparr>website_url = [], gemini_api_key = [], url_filters = Some []\<rparr>"

definition initialState :: form_state where
  "initialState =
     \<lparr>formData = initialFormData, urlFilterInput = [], isLoading = False,
      error = None, success = False, validationErrors = []\<rparr>"

text \<open>
  What the handlers do to the world outside the component state: the creation request
  with its body, the focus call, the timer and the parent's callback.
\<close>

datatype effect =
    ApiCrawlCreateCrawl PostCrawl
  | FocusUrlFilterInput
  | SetTimeout nat
  | OnCrawlCreated

text \<open>
  \<open>new URL(s)\<close> is the platform's constructor: it returns a URL object or throws a
  \<open>TypeError\<close> (\<open>None\<close>). The handlers take it as the parameter \<open>new_URL\<close>. Of the URL
  object only the \<open>protocol\<close> (the scheme with its colon) is kept.
\<close>

datatype URL = URL (protocol: jsstring)

definition validateForm_errors :: "(jsstring \<Rightarrow> URL option) \<Rightarrow> PostCrawl \<Rightarrow> (string \<times> jsstring) list" where
  "validateForm_errors new_URL fd =
     (let errors = [];
          errors =
            (if website_url fd = []
             then AList.update ''website_url'' (js ''Website URL is required'') errors
             else (case new_URL (website_url fd) of
                     Some u \<Rightarrow> errors
                   | None \<Rightarrow> AList.update ''website_url'' (js ''Please enter a valid URL'') errors));
          errors =
            (if gemini_api_key fd = []
             then AList.update ''gemini_api_key'' (js ''Gemini API key is required'') errors
             else errors)
      in errors)"

definition validateForm :: "(jsstring \<Rightarrow> URL option) \<Rightarrow> form_state \<Rightarrow> bool \<times> form_state" where
  "validateForm new_URL st =
     (let errors = validateForm_errors new_URL (formData st)
      in (errors = [], st\<lparr>validationErrors := errors\<rparr>))"

text \<open>
  \<open>validateForm\<close> accepts the \<open>website_url\<close> when it leaves no entry for it in \<open>errors\<close>.
\<close>

definition website_url_accepted :: "(jsstring \<Rightarrow> URL option) \<Rightarrow> PostCrawl \<Rightarrow> bool" where
  "website_url_accepted new_URL fd \<longleftrightarrow>
     map_of (validateForm_errors new_URL fd) ''website_url'' = None"

text \<open>\<open>xs?.includes(x)\<close>: \<open>undefined\<close>, which is falsy, when \<open>xs\<close> is absent.\<close>

definition array_includes :: "'a list option \<Rightarrow> 'a \<Rightarrow> bool" where
  "array_includes xs x = (case xs of None \<Rightarrow> False | Some ys \<Rightarrow> x \<in> set ys)"

text \<open>\<open>xs || []\<close>: an array is always truthy.\<close>

definition or_empty :: "'a list option \<Rightarrow> 'a list" where
  "or_empty xs = (case xs of None \<Rightarrow> [] | Some ys \<Rightarrow> ys)"

definition handleAddUrlFilter :: "form_state \<Rightarrow> form_state \<times> effect list" where
  "handleAddUrlFilter st =
     (if trim (urlFilterInput st) \<noteq> []
         \<and> \<not> array_includes (url_filters (formData st)) (trim (urlFilterInput st))
      then (st\<lparr>formData := (formData st)
                 \<lparr>url_filters :=
                    Some (or_empty (url_filters (formData st)) @ [trim (urlFilterInput st)])\<rparr>,
               urlFilterInput := []\<rparr>,
            [FocusUrlFilterInput])
      else (st, []))"

definition handleRemoveUrlFilter :: "jsstring \<Rightarrow> form_state \<Rightarrow> form_state \<times> effect list" where
  "handleRemoveUrlFilter filterToRemove st =
     (st\<lparr>formData := (formData st)
          \<lparr>url_filters :=
             Some (case url_filters (formData st) of
                     None \<Rightarrow> []
                   | Some fs \<Rightarrow> filter (\<lambda>f. f \<noteq> filterToRemove) fs)\<rparr>\<rparr>,
      [])"

text \<open>
  What the awaited creation request comes back with: a rejected promise (the thrown
  \<open>Error\<close>'s message, if it has one), a response with \<open>error\<close> set (its \<open>detail\<close>, if it
  has one), or a response without error.
\<close>

datatype create_result =
    CreateThrew "jsstring option"
  | CreateError "jsstring option"
  | CreateOk

text \<open>\<open>v || d\<close> on an optional string: \<open>undefined\<close> and the empty string are falsy.\<close>

definition or_else :: "jsstring option \<Rightarrow> jsstring \<Rightarrow> jsstring" where
  "or_else v d = (case v of None \<Rightarrow> d | Some s \<Rightarrow> if s = [] then d else s)"

text \<open>
  \<open>handleSubmit\<close> is an async function. Up to the \<open>await\<close> it validates, sets the flags
  and sends the request with the \<open>formData\<close> of its render; \<open>handleSubmit_resume\<close> is the
  rest of its body, run when the request has settled (the \<open>finally\<close> block included);
  \<open>resetAfterSuccess\<close> is the callback it gave to \<open>setTimeout\<close>.
\<close>

definition handleSubmit :: "(jsstring \<Rightarrow> URL option) \<Rightarrow> form_state \<Rightarrow> form_state \<times> effect list" where
  "handleSubmit new_URL st =
     (let (valid, st1) = validateForm new_URL st
      in if \<not> valid then (st1, [])
         else (st1\<lparr>isLoading := True, error := None, success := False\<rparr>,
               [ApiCrawlCreateCrawl (formData st)]))"

definition handleSubmit_resume :: "create_result \<Rightarrow> form_state \<Rightarrow> form_state \<times> effect list" where
  "handleSubmit_resume response st =
     (case response of
        CreateError detail \<Rightarrow>
          (st\<lparr>error := Some (or_else detail (js ''Failed to create crawl'')),
              isLoading := False\<rparr>, [])
      | CreateOk \<Rightarrow>
          (st\<lparr>success := True, isLoading := False\<rparr>, [SetTimeout 2000])
      | CreateThrew message \<Rightarrow>
          (st\<lparr>error := Some (or_else message (js ''Failed to create crawl'')),
              isLoading := False\<rparr>, []))"

definition resetAfterSuccess :: "form_state \<Rightarrow> form_state \<times> effect list" where
  "resetAfterSuccess st =
     (st\<lparr>formData := \<lparr>website_url = [], gemini_api_key = [], url_filters = Some []\<rparr>,
          urlFilterInput := [],
          success := False\<rparr>,
      [OnCrawlCreated])"

text \<open>
  The \<open>useEffect\<close> that runs after a render in which \<open>formData\<close> or \<open>validationErrors\<close>
  changed: a message whose field is now non-empty is overwritten with the empty string.
\<close>

definition truthy :: "jsstring option \<Rightarrow> bool" where
  "truthy v = (case v of None \<Rightarrow> False | Some s \<Rightarrow> s \<noteq> [])"

definition clearValidationErrors :: "form_state \<Rightarrow> form_state" where
  "clearValidationErrors st =
     (let shown = validationErrors st;
          errs = shown;
          errs = (if truthy (map_of shown ''website_url'') \<and> website_url (formData st) \<noteq> []
                  then AList.update ''website_url'' [] errs else errs);
          errs = (if truthy (map_of shown ''gemini_api_key'') \<and> gemini_api_key (formData st) \<noteq> []
                  then AList.update ''gemini_api_key'' [] errs else errs)
      in st\<lparr>validationErrors := errs\<rparr>)"

text \<open>
  The events the component receives. The three inputs, the two buttons and the filter
  badges are disabled while \<open>isLoading || success\<close> (the \<open>disabled\<close> attributes and the
  guard in the badge's \<open>onClick\<close>), and the add button also while the trimmed filter
  input is empty. A request settles only while one is pending, which is while
  \<open>isLoading\<close>; the reset timer fires only while it is armed, which is while \<open>success\<close>.
\<close>

datatype event =
    ChangeWebsiteUrl jsstring
  | ChangeGeminiApiKey jsstring
  | ChangeUrlFilterInput jsstring
  | PressEnterInFilterInput
  | ClickAddFilter
  | ClickFilterBadge jsstring
  | SubmitForm
  | CreateCrawlSettled create_result
  | ResetTimerFired

definition dispatch :: "(jsstring \<Rightarrow> URL option) \<Rightarrow> form_state \<Rightarrow> event \<Rightarrow> form_state \<times> effect list" where
  "dispatch new_URL st ev =
     (case ev of
        ChangeWebsiteUrl v \<Rightarrow>
          if isLoading st \<or> success st then (st, [])
          else (st\<lparr>formData := (formData st)\<lparr>website_url := v\<rparr>\<rparr>, [])
      | ChangeGeminiApiKey v \<Rightarrow>
          if isLoading st \<or> success st then (st, [])
          else (st\<lparr>formData := (formData st)\<lparr>gemini_api_key := v\<rparr>\<rparr>, [])
      | ChangeUrlFilterInput v \<Rightarrow>
          if isLoading st \<or> success st then (st, [])
          else (st\<lparr>urlFilterInput := v\<rparr>, [])
      | PressEnterInFilterInput \<Rightarrow>
          if isLoading st \<or> success st then (st, [])
          else handleAddUrlFilter st
      | ClickAddFilter \<Rightarrow>
          if trim (urlFilterInput st) = [] \<or> isLoading st \<or> success st then (st, [])
          else handleAddUrlFilter st
      | ClickFilterBadge f \<Rightarrow>
          if \<not> isLoading st \<and> \<not> success st then handleRemoveUrlFilter f st
          else (st, [])
      | SubmitForm \<Rightarrow>
          if isLoading st \<or> success st then (st, [])
          else handleSubmit new_URL st
      | CreateCrawlSettled response \<Rightarrow>
          if isLoading st then handleSubmit_resume response st else (st, [])
      | ResetTimerFired \<Rightarrow>
          if success st then resetAfterSuccess st else (st, []))"

text \<open>
  One step handles an event, lets the effect hook run on the new state and appends what
  the handler did to the trace. Events are handled one at a time, each on the state the
  one before left: React renders between two discrete events, so a handler's closure
  holds the current state. A run starts from the initial state.
\<close>

definition step :: "(jsstring \<Rightarrow> URL option) \<Rightarrow> form_state \<times> effect list \<Rightarrow> event \<Rightarrow> form_state \<times> effect list" where
  "step new_URL cfg ev =
     (let (st, out) = dispatch new_URL (fst cfg) ev
      in (clearValidationErrors st, snd cfg @ out))"

definition run :: "(jsstring \<Rightarrow> URL option) \<Rightarrow> event list \<Rightarrow> form_state \<times> effect list" where
  "run new_URL evs = foldl (step new_URL) (initialState, []) evs"


text \<open>
  A filter is trimmed when it is non-empty and neither starts nor ends with white space;
  a filter list is well formed when it is present, has no duplicates and holds trimmed
  strings only.
\<close>

definition trimmed :: "jsstring \<Rightarrow> bool" where
  "trimmed f \<longleftrightarrow> f \<noteq> [] \<and> \<not> isWhiteSpace (hd f) \<and> \<not> isWhiteSpace (last f)"

definition filters_ok :: "jsstring list option \<Rightarrow> bool" where
  "filters_ok fo = (case fo of None \<Rightarrow> False | Some fs \<Rightarrow> distinct fs \<and> list_all trimmed fs)"

text \<open>
  Two events are the same up to the API key when they are equal, or both type a key
  into the key field and the two keys are both empty or both non-empty. An effect is
  redacted by blanking the key in a request body.
\<close>

definition same_up_to_key :: "event \<Rightarrow> event \<Rightarrow> bool" where
  "same_up_to_key e e' =
     (case (e, e') of
        (ChangeGeminiApiKey k, ChangeGeminiApiKey k') \<Rightarrow> (k = []) = (k' = [])
      | _ \<Rightarrow> e = e')"

definition redact_body :: "PostCrawl \<Rightarrow> PostCrawl" where
  "redact_body b = b\<lparr>gemini_api_key := []\<rparr>"

definition redact :: "effect \<Rightarrow> effect" where
  "redact x = (case x of ApiCrawlCreateCrawl b \<Rightarrow> ApiCrawlCreateCrawl (redact_body b) | _ \<Rightarrow> x)"

text \<open>
  Two states agree up to the API key when every field but the key is the same and the
  two keys are both empty or both non-empty.
\<close>

definition key_equiv :: "form_state \<Rightarrow> form_state \<Rightarrow> bool" where
  "key_equiv st st' \<longleftrightarrow>
     website_url (formData st) = website_url (formData st')
   \<and> url_filters (formData st) = url_filters (formData st')
   \<and> (gemini_api_key (formData st) = []) = (gemini_api_key (formData st') = [])
   \<and> urlFilterInput st = urlFilterInput st'
   \<and> isLoading st = isLoading st'
   \<and> error st = error st'
   \<and> success st = success st'
   \<and> validationErrors st = validationErrors st'"


section \<open>The URL constructor\<close>

text \<open>
  \<open>new URL(input)\<close> without a base runs the basic URL parser of the URL Standard. It
  strips leading and trailing C0 control or space, removes ASCII tab and newline, and
  reads the scheme: an ASCII letter, then letters, digits, \<open>+\<close>, \<open>-\<close> and \<open>.\<close> up to the
  first colon, lower-cased. Without a scheme it fails. After the colon

  \<^item> a special scheme (ftp, file, http, https, ws, wss), or any scheme followed by
    \<open>//\<close>, goes on to the authority and host states, which can fail;
  \<^item> every other input goes to the path or the opaque path state, then to the query and
    fragment states, none of which fails.

  The host parser is not modelled: \<open>hostOK scheme rest\<close> says whether the platform accepts
  what follows the colon in the first case.
\<close>

definition isC0ControlOrSpace :: "jschar \<Rightarrow> bool" where
  "isC0ControlOrSpace c \<longleftrightarrow> c \<le> 0x20"

definition isAsciiTabOrNewline :: "jschar \<Rightarrow> bool" where
  "isAsciiTabOrNewline c \<longleftrightarrow> c = 0x9 \<or> c = 0xA \<or> c = 0xD"

definition isAsciiAlpha :: "jschar \<Rightarrow> bool" where
  "isAsciiAlpha c \<longleftrightarrow> (0x41 \<le> c \<and> c \<le> 0x5A) \<or> (0x61 \<le> c \<and> c \<le> 0x7A)"

definition isAsciiDigit :: "jschar \<Rightarrow> bool" where
  "isAsciiDigit c \<longleftrightarrow> 0x30 \<le> c \<and> c \<le> 0x39"

fun scheme_state :: "jsstring \<Rightarrow> jsstring \<Rightarrow> (jsstring \<times> jsstring) option" where
  "scheme_state buffer [] = None"
| "scheme_state buffer (c # rest) =
     (if isAsciiAlpha c \<or> isAsciiDigit c \<or> c = 0x2B \<or> c = 0x2D \<or> c = 0x2E
      then scheme_state (buffer @ [asciiLowercase c]) rest
      else if c = 0x3A then Some (buffer, rest)
      else None)"

definition scheme_start_state :: "jsstring \<Rightarrow> (jsstring \<times> jsstring) option" where
  "scheme_start_state input =
     (case input of
        [] \<Rightarrow> None
      | c # rest \<Rightarrow> if isAsciiAlpha c then scheme_state [asciiLowercase c] rest else None)"

definition isSpecialScheme :: "jsstring \<Rightarrow> bool" where
  "isSpecialScheme scheme \<longleftrightarrow>
     scheme = js ''ftp'' \<or> scheme = js ''file'' \<or> scheme = js ''http'' \<or>
     scheme = js ''https'' \<or> scheme = js ''ws'' \<or> scheme = js ''wss''"

definition URL_new :: "(jsstring \<Rightarrow> jsstring \<Rightarrow> bool) \<Rightarrow> jsstring \<Rightarrow> URL option" where
  "URL_new hostOK input =
     (let input = rev (dropWhile isC0ControlOrSpace (rev (dropWhile isC0ControlOrSpace input)));
          input = filter (\<lambda>c. \<not> isAsciiTabOrNewline c) input
      in case scheme_start_state input of
           None \<Rightarrow> None
         | Some (scheme, rest) \<Rightarrow>
             if isSpecialScheme scheme \<or> take 2 rest = js ''//''
             then (if hostOK scheme rest then Some (URL (scheme @ js '':'')) else None)
             else Some (URL (scheme @ js '':'')))"

text \<open>A URL is an absolute HTTP(S) URL when it parses and its scheme is http or https.\<close>

definition isHttpUrl :: "(jsstring \<Rightarrow> URL option) \<Rightarrow> jsstring \<Rightarrow> bool" where
  "isHttpUrl new_URL s =
     (case new_URL s of
        None \<Rightarrow> False
      | Some u \<Rightarrow> protocol u = js ''http:'' \<or> protocol u = js ''https:'')"


section \<open>The dashboard route and the search box of crawl-list.tsx\<close>

text \<open>
  The response type \<open>GetCrawl\<close> of the listing request; the crawl entries themselves are
  not inspected here. The dashboard state is one field per \<open>useState\<close>: \<open>listing\<close> is the
  state variable \<open>crawls\<close> and \<open>listLoading\<close> is the dashboard's \<open>isLoading\<close> (the names
  \<open>crawls\<close> and \<open>isLoading\<close> are taken by the response field and by the form).
\<close>

record 'c GetCrawl =
  count :: int
  crawls :: "'c list"

record 'c dashboard_state =
  listing :: "'c GetCrawl"
  listLoading :: bool
  showForm :: bool

text \<open>The query object \<open>{ term: searchTerm }\<close>.\<close>

datatype query = Query (query_term: jsstring)

text \<open>
  The listing request either throws or returns a response whose \<open>data\<close> may be absent.
  The dashboard's effects are the request with its query and the \<open>console.error\<close> call.
\<close>

datatype 'c list_result =
    ListThrew
  | ListResponse "'c GetCrawl option"

datatype dashboard_effect =
    ApiCrawlListCrawls "query option"
  | ConsoleError

definition loadCrawls ::
  "(query option \<Rightarrow> 'c list_result) \<Rightarrow> jsstring option \<Rightarrow> 'c dashboard_state
     \<Rightarrow> 'c dashboard_state \<times> dashboard_effect list" where
  "loadCrawls apiCrawlListCrawls searchTerm st =
     (let query = (case searchTerm of
                     None \<Rightarrow> None
                   | Some t \<Rightarrow> if t = [] then None else Some (Query t))
      in case apiCrawlListCrawls query of
           ListResponse (Some d) \<Rightarrow>
             (st\<lparr>listing := d, listLoading := False\<rparr>, [ApiCrawlListCrawls query])
         | ListResponse None \<Rightarrow>
             (st\<lparr>listLoading := False\<rparr>, [ApiCrawlListCrawls query])
         | ListThrew \<Rightarrow>
             (st\<lparr>listLoading := False\<rparr>, [ApiCrawlListCrawls query, ConsoleError]))"

text \<open>
  \<open>searchTerm.trim() || undefined\<close>, the argument that both the debounced search and the
  refresh button pass to \<open>loadCrawls\<close> (the props \<open>onSearch\<close> and \<open>onRefresh\<close>).
\<close>

definition trimmedOrUndefined :: "jsstring \<Rightarrow> jsstring option" where
  "trimmedOrUndefined searchTerm = (if trim searchTerm = [] then None else Some (trim searchTerm))"

definition onSearch ::
  "(query option \<Rightarrow> 'c list_result) \<Rightarrow> jsstring \<Rightarrow> 'c dashboard_state
     \<Rightarrow> 'c dashboard_state \<times> dashboard_effect list" where
  "onSearch apiCrawlListCrawls searchTerm st =
     loadCrawls apiCrawlListCrawls (trimmedOrUndefined searchTerm) st"

definition handleRefresh ::
  "(query option \<Rightarrow> 'c list_result) \<Rightarrow> jsstring \<Rightarrow> 'c dashboard_state
     \<Rightarrow> 'c dashboard_state \<times> dashboard_effect list" where
  "handleRefresh apiCrawlListCrawls searchTerm st =
     loadCrawls apiCrawlListCrawls (trimmedOrUndefined searchTerm) st"


section \<open>The job controller of the specification\<close>

text \<open>
  Modelled from the spec: the four job states of section 4.1 and the terminal failure
  reasons of section 7. The job controller's code is not among the sources.
\<close>

datatype job_status = pending | in_progress | completed | failed

datatype failure_reason = GenerationFailed | Cancelled | Timeout

text \<open>
  Modelled from the spec: the \<open>CrawlJob\<close> of section 3, with its seed URL, its filters,
  its status, the pages processed so far, the two optional output document handles and
  the failure reason.
\<close>

record CrawlJob =
  seed_url :: jsstring
  filters :: "jsstring list"
  status :: job_status
  page_count :: nat
  summary_doc :: "jsstring option"
  full_doc :: "jsstring option"
  failure :: "failure_reason option"

text \<open>
  Modelled from the spec: what happens to a job (sections 4.1 and 4.5). It starts; a
  page passes through the generator; all batches succeed with the frontier exhausted,
  and the controller records both handles; it fails with a reason; it is cancelled.
\<close>

datatype job_event =
    Start
  | PageProcessed
  | Complete jsstring jsstring
  | Fail failure_reason
  | CancelJob

text \<open>
  Modelled from the spec: a job is created \<open>pending\<close> with no output and no failure.
\<close>

definition newJob :: "jsstring \<Rightarrow> jsstring list \<Rightarrow> CrawlJob" where
  "newJob seedURL fs =
     \<lparr>seed_url = seedURL, filters = fs, status = pending, page_count = 0,
      summary_doc = None, full_doc = None, failure = None\<rparr>"

text \<open>
  Modelled from the spec: the state machine of section 4.1. \<open>pending\<close> goes to
  \<open>in_progress\<close> on start; an \<open>in_progress\<close> job counts its pages, completes with both
  documents recorded at once, or fails with the reason recorded; \<open>CancelJob\<close> takes a
  job that is not terminal to \<open>failed\<close> with reason \<open>Cancelled\<close>; no transition leaves
  \<open>completed\<close> or \<open>failed\<close>.
\<close>

definition job_step :: "CrawlJob \<Rightarrow> job_event \<Rightarrow> CrawlJob" where
  "job_step j e =
     (case status j of
        pending \<Rightarrow>
          (case e of
             Start \<Rightarrow> j\<lparr>status := in_progress\<rparr>
           | CancelJob \<Rightarrow> j\<lparr>status := failed, failure := Some Cancelled\<rparr>
           | _ \<Rightarrow> j)
      | in_progress \<Rightarrow>
          (case e of
             PageProcessed \<Rightarrow> j\<lparr>page_count := page_count j + 1\<rparr>
           | Complete s f \<Rightarrow> j\<lparr>status := completed, summary_doc := Some s, full_doc := Some f\<rparr>
           | Fail r \<Rightarrow> j\<lparr>status := failed, failure := Some r\<rparr>
           | CancelJob \<Rightarrow> j\<lparr>status := failed, failure := Some Cancelled\<rparr>
           | Start \<Rightarrow> j)
      | completed \<Rightarrow> j
      | failed \<Rightarrow> j)"

text \<open>Modelled from the spec: the states a job passes through, one per observation.\<close>

definition job_run :: "CrawlJob \<Rightarrow> job_event list \<Rightarrow> CrawlJob" where
  "job_run j es = foldl job_step j es"

text \<open>
  Modelled from the spec: the names of the four states in section 4.1, which are the
  strings the status badge of the crawl list recognises.
\<close>

definition status_name :: "job_status \<Rightarrow> jsstring" where
  "status_name s =
     (case s of
        pending \<Rightarrow> js ''pending''
      | in_progress \<Rightarrow> js ''in_progress''
      | completed \<Rightarrow> js ''completed''
      | failed \<Rightarrow> js ''failed'')"

text \<open>Modelled from the spec: the terminal states of section 4.1.\<close>

definition terminal :: "job_status \<Rightarrow> bool" where
  "terminal s \<longleftrightarrow> s = completed \<or> s = failed"

text \<open>
  Modelled from the spec: the invariant of section 3, each output document exists if
  and only if the status is \<open>completed\<close>.
\<close>

definition outputs_iff_completed :: "CrawlJob \<Rightarrow> bool" where
  "outputs_iff_completed j \<longleftrightarrow>
     (summary_doc j \<noteq> None) = (status j = completed)
   \<and> (full_doc j \<noteq> None) = (status j = completed)"


section \<open>Example inputs\<close>

text \<open>
  Concrete inputs on which the properties below are exercised: a host predicate that
  accepts the authority \<open>//example.com\<close> only, a session on the form with a given API
  key, the same session followed by a submission, and a form state with given field
  contents.
\<close>

definition exampleHostOK :: "jsstring \<Rightarrow> jsstring \<Rightarrow> bool" where
  "exampleHostOK scheme rest \<longleftrightarrow> rest = js ''//example.com''"

definition exampleSession :: "jsstring \<Rightarrow> event list" where
  "exampleSession key =
     [ChangeWebsiteUrl (js ''https://example.com''), ChangeGeminiApiKey key,
      ChangeUrlFilterInput (js '' /blog ''), PressEnterInFilterInput,
      ChangeUrlFilterInput (js ''.pdf''), ClickAddFilter,
      ChangeUrlFilterInput (js ''/blog''), ClickAddFilter,
      ClickFilterBadge (js ''.pdf'')]"

definition exampleEvents :: "event list" where
  "exampleEvents = exampleSession (js ''key'') @ [SubmitForm]"

definition exampleForm :: "jsstring \<Rightarrow> jsstring \<Rightarrow> jsstring list \<Rightarrow> jsstring \<Rightarrow> form_state" where
  "exampleForm url key fs input =
     initialState\<lparr>formData := \<lparr>website_url = url, gemini_api_key = key, url_filters = Some fs\<rparr>,
                  urlFilterInput := input\<rparr>"


text \<open>
  A listing service with two crawls, of which one matches any search term; a dashboard
  before its first load; a job as \<open>StartJob\<close> creates it.
\<close>

definition exampleApi :: "query option \<Rightarrow> nat list_result" where
  "exampleApi q =
     (case q of
        None \<Rightarrow> ListResponse (Some \<lparr>count = 2, crawls = [1, 2]\<rparr>)
      | Some t \<Rightarrow> ListResponse (Some \<lparr>count = 1, crawls = [2]\<rparr>))"

definition exampleDashboard :: "nat dashboard_state" where
  "exampleDashboard =
     \<lparr>listing = \<lparr>count = 0, crawls = []\<rparr>, listLoading = True, showForm = False\<rparr>"

definition exampleJob :: CrawlJob where
  "exampleJob = newJob (js ''https://example.com'') [js ''.pdf'']"


section \<open>Properties of the progress heuristics\<close>

lemma totalSeconds_ge_60: "60 \<le> totalSeconds pages"
proof (cases "pages \<ge> 10")
  case True
  then have "1 \<le> pages div 10" by presburger
  with True show ?thesis by (simp add: totalSeconds_def Let_def)
next
  case False
  then show ?thesis by (simp add: totalSeconds_def)
qed

lemma totalSeconds_nonzero: "totalSeconds pages \<noteq> 0"
  using totalSeconds_ge_60 [of pages] by simp

text \<open>
  C8. For every page count, every valid creation timestamp and every current time the
  progress percentage is a number between 0 and 100, and it is 0 when the page count
  is 0 (whatever the timestamp).
\<close>

theorem getProgressPercentage_bounded:
  "(\<exists>r. getProgressPercentage p (Some created) now = Some r \<and> 0 \<le> r \<and> r \<le> 100)
   \<and> getProgressPercentage 0 createdTime now = Some 0"
  by (simp add: getProgressPercentage_def Let_def totalSeconds_nonzero)

lemma dec_hd: "dec n \<noteq> [] \<and> hd (dec n) \<noteq> 0x41"
proof (induction n rule: dec.induct)
  case (1 n)
  show ?case
  proof (cases "n < 10")
    case True
    then have "n \<in> {0, 1, 2, 3, 4, 5, 6, 7, 8, 9}"
      by auto
    then show ?thesis by (auto simp: dec.simps [of n])
  next
    case False
    with 1 show ?thesis by (simp add: dec.simps [of n])
  qed
qed

lemma dec_not_Almost_done: "dec n @ s \<noteq> js ''Almost done''"
proof
  assume "dec n @ s = js ''Almost done''"
  then have "hd (dec n @ s) = hd (js ''Almost done'')" by simp
  with dec_hd [of n] show False by (simp add: js_def)
qed

lemma getEstimatedTime_Almost_done:
  "p \<noteq> 0 \<Longrightarrow>
   getEstimatedTime p (Some created) now = js ''Almost done''
     \<longleftrightarrow> totalSeconds p \<le> (now - created) div 1000"
  by (auto simp: getEstimatedTime_def Let_def dec_not_Almost_done)

lemma getProgressPercentage_full:
  "p \<noteq> 0 \<Longrightarrow>
   getProgressPercentage p (Some created) now = Some 100
     \<longleftrightarrow> totalSeconds p \<le> (now - created) div 1000"
  using totalSeconds_ge_60 [of p]
  by (auto simp: getProgressPercentage_def Let_def min_def max_def field_simps
      split: if_splits)

text \<open>
  With a \<open>created_at\<close> that is not a date the percentage is \<open>NaN\<close>, unless the page
  count is 0.
\<close>

lemma getProgressPercentage_NaN:
  "getProgressPercentage p None now = (if p = 0 then Some 0 else None)"
  by (simp add: getProgressPercentage_def)

text \<open>
  C6. The estimated total duration has a 10-page base unit: it is 60 seconds for 1 to 9
  pages, it is \<open>60 + (floor(p/10) - 1) * 90\<close> seconds from 10 pages on, so that ten more
  pages add exactly 90 seconds, and this total is the one both functions show: the
  remaining time reads "Almost done" and the bar is full exactly when the elapsed
  seconds have reached it.
\<close>

theorem totalSeconds_ten_page_unit:
  "(1 \<le> p \<and> p \<le> 9 \<longrightarrow> totalSeconds p = 60)
   \<and> (10 \<le> p \<longrightarrow> totalSeconds p = 60 + (p div 10 - 1) * 90
                 \<and> totalSeconds (p + 10) = totalSeconds p + 90)
   \<and> (p \<noteq> 0 \<longrightarrow>
        (getEstimatedTime p (Some created) now = js ''Almost done''
           \<longleftrightarrow> totalSeconds p \<le> (now - created) div 1000)
      \<and> (getProgressPercentage p (Some created) now = Some 100
           \<longleftrightarrow> totalSeconds p \<le> (now - created) div 1000))"
proof -
  have "1 \<le> p \<and> p \<le> 9 \<longrightarrow> totalSeconds p = 60"
    by (simp add: totalSeconds_def)
  moreover have "10 \<le> p \<longrightarrow> totalSeconds p = 60 + (p div 10 - 1) * 90
                 \<and> totalSeconds (p + 10) = totalSeconds p + 90"
    by (simp add: totalSeconds_def Let_def algebra_simps)
  ultimately show ?thesis
    using getEstimatedTime_Almost_done [of p created now]
      getProgressPercentage_full [of p created now]
    by blast
qed

theorem totalSeconds_ten_page_unit_witness:
  "totalSeconds 7 = 60 \<and> totalSeconds 25 = 150 \<and> totalSeconds 35 = 240
   \<and> getEstimatedTime 25 (Some 0) 150000 = js ''Almost done''
   \<and> getProgressPercentage 25 (Some 0) 150000 = Some 100"
  using totalSeconds_ten_page_unit [of 7 0 0]
    totalSeconds_ten_page_unit [of 25 0 150000]
  by simp


section \<open>Properties of \<open>trim\<close>\<close>

lemma dropWhile_all_iff: "(\<forall>x \<in> set (dropWhile P xs). P x) \<longleftrightarrow> (\<forall>x \<in> set xs. P x)"
  by (induction xs) auto

lemma trim_empty_iff: "trim s = [] \<longleftrightarrow> (\<forall>c \<in> set s. isWhiteSpace c)"
  by (simp add: trim_def dropWhile_eq_Nil_conv dropWhile_all_iff)

lemma last_dropWhile_nonempty: "dropWhile P xs \<noteq> [] \<Longrightarrow> last (dropWhile P xs) = last xs"
  by (induction xs) (auto split: if_splits)

lemma trim_trimmed: "trim s \<noteq> [] \<Longrightarrow> trimmed (trim s)"
proof -
  assume ne: "trim s \<noteq> []"
  let ?a = "dropWhile isWhiteSpace s"
  let ?b = "dropWhile isWhiteSpace (rev ?a)"
  from ne have b: "?b \<noteq> []" by (simp add: trim_def)
  have a: "?a \<noteq> []"
  proof
    assume "?a = []"
    then have "?b = []" by (simp add: dropWhile_eq_Nil_conv dropWhile_all_iff)
    with b show False by simp
  qed
  have l: "\<not> isWhiteSpace (last (trim s))"
    using b by (simp add: trim_def last_rev hd_dropWhile)
  have "\<not> isWhiteSpace (hd ?a)" using a by (simp add: hd_dropWhile)
  moreover have "last ?b = last (rev ?a)"
    using b by (rule last_dropWhile_nonempty)
  ultimately have h: "\<not> isWhiteSpace (hd (trim s))"
    using a b by (simp add: trim_def hd_rev last_rev)
  from ne h l show ?thesis by (simp add: trimmed_def)
qed

lemma trimmed_trim: "trimmed f \<Longrightarrow> trim f = f"
proof -
  assume t: "trimmed f"
  then have "dropWhile isWhiteSpace f = f"
    by (cases f) (auto simp: trimmed_def)
  moreover from t have "dropWhile isWhiteSpace (rev f) = rev f"
    by (cases "rev f") (auto simp: trimmed_def last_rev hd_rev dest: arg_cong [where f = hd])
  ultimately show ?thesis by (simp add: trim_def)
qed


section \<open>The filter list of the form\<close>

lemma handleAddUrlFilter_filters_ok:
  "filters_ok (url_filters (formData st)) \<Longrightarrow>
   filters_ok (url_filters (formData (fst (handleAddUrlFilter st))))"
  by (auto simp: handleAddUrlFilter_def filters_ok_def array_includes_def or_empty_def
      trim_trimmed split: option.splits)

lemma handleRemoveUrlFilter_filters_ok:
  "filters_ok (url_filters (formData st)) \<Longrightarrow>
   filters_ok (url_filters (formData (fst (handleRemoveUrlFilter f st))))"
  by (auto simp: handleRemoveUrlFilter_def filters_ok_def list_all_iff split: option.splits)

lemma handleSubmit_formData: "formData (fst (handleSubmit new_URL st)) = formData st"
  by (simp add: handleSubmit_def validateForm_def Let_def)

lemma handleSubmit_resume_formData: "formData (fst (handleSubmit_resume r st)) = formData st"
  by (cases r) (simp_all add: handleSubmit_resume_def)

lemma resetAfterSuccess_filters_ok:
  "filters_ok (url_filters (formData (fst (resetAfterSuccess st))))"
  by (simp add: resetAfterSuccess_def filters_ok_def)

lemma clearValidationErrors_formData [simp]: "formData (clearValidationErrors st) = formData st"
  by (simp add: clearValidationErrors_def Let_def)

lemma dispatch_filters_ok:
  "filters_ok (url_filters (formData st)) \<Longrightarrow>
   filters_ok (url_filters (formData (fst (dispatch new_URL st ev))))"
  by (cases ev)
    (simp_all add: dispatch_def handleAddUrlFilter_filters_ok handleRemoveUrlFilter_filters_ok
      handleSubmit_formData handleSubmit_resume_formData resetAfterSuccess_filters_ok)

lemma handleSubmit_effects:
  "x \<in> set (snd (handleSubmit new_URL st)) \<Longrightarrow>
   x = ApiCrawlCreateCrawl (formData st) \<and> fst (validateForm new_URL st)"
  by (auto simp: handleSubmit_def validateForm_def Let_def split: if_splits)

lemma dispatch_requests:
  "ApiCrawlCreateCrawl body \<in> set (snd (dispatch new_URL st ev)) \<Longrightarrow>
   body = formData st \<and> fst (validateForm new_URL st)"
  by (cases ev)
    (auto simp: dispatch_def handleAddUrlFilter_def handleRemoveUrlFilter_def
      handleSubmit_resume_def resetAfterSuccess_def
      dest: handleSubmit_effects split: if_splits create_result.splits)

lemma step_filters_ok:
  assumes "filters_ok (url_filters (formData (fst cfg)))"
    and "\<forall>body. ApiCrawlCreateCrawl body \<in> set (snd cfg) \<longrightarrow> filters_ok (url_filters body)"
  shows "filters_ok (url_filters (formData (fst (step new_URL cfg ev))))
     \<and> (\<forall>body. ApiCrawlCreateCrawl body \<in> set (snd (step new_URL cfg ev))
           \<longrightarrow> filters_ok (url_filters body))"
proof -
  obtain st out where d: "dispatch new_URL (fst cfg) ev = (st, out)"
    by (cases "dispatch new_URL (fst cfg) ev")
  have "filters_ok (url_filters (formData st))"
    using dispatch_filters_ok [OF assms(1), of new_URL ev] d by simp
  moreover have "filters_ok (url_filters body)" if "ApiCrawlCreateCrawl body \<in> set out" for body
    using dispatch_requests [of body new_URL "fst cfg" ev] d that assms(1) by simp
  ultimately show ?thesis
    using assms(2) d by (auto simp: step_def)
qed

lemma foldl_step_filters_ok:
  assumes "filters_ok (url_filters (formData (fst cfg)))"
    and "\<forall>body. ApiCrawlCreateCrawl body \<in> set (snd cfg) \<longrightarrow> filters_ok (url_filters body)"
  shows "filters_ok (url_filters (formData (fst (foldl (step new_URL) cfg evs))))
     \<and> (\<forall>body. ApiCrawlCreateCrawl body \<in> set (snd (foldl (step new_URL) cfg evs))
           \<longrightarrow> filters_ok (url_filters body))"
  using assms
proof (induction evs arbitrary: cfg)
  case Nil
  then show ?case by simp
next
  case (Cons ev evs)
  have "filters_ok (url_filters (formData (fst (step new_URL cfg ev))))"
    and "\<forall>body. ApiCrawlCreateCrawl body \<in> set (snd (step new_URL cfg ev))
           \<longrightarrow> filters_ok (url_filters body)"
    using step_filters_ok [OF Cons.prems, of new_URL ev] by simp_all
  then show ?case using Cons.IH [of "step new_URL cfg ev"] by simp
qed

lemma run_filters_ok:
  "filters_ok (url_filters (formData (fst (run new_URL evs))))
   \<and> (\<forall>body. ApiCrawlCreateCrawl body \<in> set (snd (run new_URL evs))
         \<longrightarrow> filters_ok (url_filters body))"
  unfolding run_def
  by (rule foldl_step_filters_ok)
    (simp_all add: initialState_def initialFormData_def filters_ok_def)

lemma filters_ok_iff:
  "filters_ok fo \<longleftrightarrow>
     (\<exists>fs. fo = Some fs \<and> distinct fs
        \<and> (\<forall>f \<in> set fs. f \<noteq> [] \<and> \<not> isWhiteSpace (hd f) \<and> \<not> isWhiteSpace (last f)))"
  by (auto simp: filters_ok_def trimmed_def list_all_iff split: option.splits)

text \<open>
  C2. After every sequence of events on the form (typing, adding and removing filters,
  submitting, responses and the reset), the filter list is present, has no duplicates
  and holds only non-empty strings that neither start nor end with white space; and
  so does the filter list of every creation request the form has sent.
\<close>

theorem url_filters_invariant:
  "(\<exists>fs. url_filters (formData (fst (run new_URL evs))) = Some fs \<and> distinct fs
      \<and> (\<forall>f \<in> set fs. f \<noteq> [] \<and> \<not> isWhiteSpace (hd f) \<and> \<not> isWhiteSpace (last f)))
   \<and> (\<forall>body. ApiCrawlCreateCrawl body \<in> set (snd (run new_URL evs)) \<longrightarrow>
        (\<exists>fs. url_filters body = Some fs \<and> distinct fs
           \<and> (\<forall>f \<in> set fs. f \<noteq> [] \<and> \<not> isWhiteSpace (hd f) \<and> \<not> isWhiteSpace (last f))))"
  using run_filters_ok [of new_URL evs] by (simp add: filters_ok_iff)

lemma exampleRun:
  "run (URL_new exampleHostOK) exampleEvents =
     (\<lparr>formData = \<lparr>website_url = js ''https://example.com'', gemini_api_key = js ''key'',
                    url_filters = Some [js ''/blog'']\<rparr>,
       urlFilterInput = js ''/blog'', isLoading = True, error = None, success = False,
       validationErrors = []\<rparr>,
      [FocusUrlFilterInput, FocusUrlFilterInput,
       ApiCrawlCreateCrawl \<lparr>website_url = js ''https://example.com'', gemini_api_key = js ''key'',
                    url_filters = Some [js ''/blog'']\<rparr>])"
  by code_simp

theorem url_filters_invariant_witness:
  "ApiCrawlCreateCrawl \<lparr>website_url = js ''https://example.com'', gemini_api_key = js ''key'',
                    url_filters = Some [js ''/blog'']\<rparr>
       \<in> set (snd (run (URL_new exampleHostOK) exampleEvents))
   \<and> url_filters (formData (fst (run (URL_new exampleHostOK) exampleEvents))) = Some [js ''/blog'']
   \<and> js ''/blog'' \<noteq> [] \<and> \<not> isWhiteSpace (hd (js ''/blog''))
   \<and> \<not> isWhiteSpace (last (js ''/blog''))"
  using url_filters_invariant [of "URL_new exampleHostOK" exampleEvents]
  by (simp add: exampleRun)

lemma filter_neq_absent: "x \<notin> set L \<Longrightarrow> filter (\<lambda>f. f \<noteq> x) L = L"
  by (induction L) auto

lemma url_filters_update_same: "url_filters fd = v \<Longrightarrow> fd\<lparr>url_filters := v\<rparr> = fd"
  by (cases fd) simp

text \<open>
  C9. On a form whose filter list is \<open>L\<close> and whose filter input holds \<open>f\<close>: when the
  trimmed \<open>f\<close> is non-empty and not in \<open>L\<close>, adding appends it, and removing it again
  restores the form data, so the list is exactly \<open>L\<close>; when the trimmed \<open>f\<close> is empty or
  already in \<open>L\<close>, adding changes nothing and does nothing. On a list of trimmed filters
  (every list the form can hold) the same is true when \<open>f\<close> itself is in \<open>L\<close>.
\<close>

theorem filter_add_remove_round_trip:
  assumes "url_filters (formData st) = Some L"
  shows "(trim (urlFilterInput st) \<noteq> [] \<and> trim (urlFilterInput st) \<notin> set L \<longrightarrow>
            url_filters (formData (fst (handleAddUrlFilter st)))
              = Some (L @ [trim (urlFilterInput st)])
          \<and> formData (fst (handleRemoveUrlFilter (trim (urlFilterInput st))
                             (fst (handleAddUrlFilter st))))
              = formData st)
       \<and> (trim (urlFilterInput st) = [] \<or> trim (urlFilterInput st) \<in> set L \<longrightarrow>
            handleAddUrlFilter st = (st, []))
       \<and> (list_all trimmed L \<and> urlFilterInput st \<in> set L \<longrightarrow>
            handleAddUrlFilter st = (st, []))"
proof -
  have a: "trim (urlFilterInput st) \<noteq> [] \<and> trim (urlFilterInput st) \<notin> set L \<longrightarrow>
            url_filters (formData (fst (handleAddUrlFilter st)))
              = Some (L @ [trim (urlFilterInput st)])
          \<and> formData (fst (handleRemoveUrlFilter (trim (urlFilterInput st))
                             (fst (handleAddUrlFilter st))))
              = formData st"
    using assms
    by (auto simp: handleAddUrlFilter_def handleRemoveUrlFilter_def array_includes_def
        or_empty_def filter_neq_absent url_filters_update_same)
  have b: "trim (urlFilterInput st) = [] \<or> trim (urlFilterInput st) \<in> set L \<longrightarrow>
            handleAddUrlFilter st = (st, [])"
    using assms by (auto simp: handleAddUrlFilter_def array_includes_def)
  have c: "list_all trimmed L \<and> urlFilterInput st \<in> set L \<longrightarrow>
            handleAddUrlFilter st = (st, [])"
  proof
    assume h: "list_all trimmed L \<and> urlFilterInput st \<in> set L"
    then have "trimmed (urlFilterInput st)" by (auto simp: list_all_iff)
    then have "trim (urlFilterInput st) = urlFilterInput st" by (rule trimmed_trim)
    with h b show "handleAddUrlFilter st = (st, [])" by simp
  qed
  from a b c show ?thesis by blast
qed

theorem filter_add_remove_round_trip_witness:
  "url_filters (formData (fst (handleAddUrlFilter
       (exampleForm [] [] [js ''/admin''] (js '' .pdf '')))))
     = Some [js ''/admin'', js ''.pdf'']
   \<and> formData (fst (handleRemoveUrlFilter (js ''.pdf'')
         (fst (handleAddUrlFilter (exampleForm [] [] [js ''/admin''] (js '' .pdf ''))))))
     = formData (exampleForm [] [] [js ''/admin''] (js '' .pdf ''))
   \<and> handleAddUrlFilter (exampleForm [] [] [js ''/admin''] (js '' /admin''))
     = (exampleForm [] [] [js ''/admin''] (js '' /admin''), [])
   \<and> handleAddUrlFilter (exampleForm [] [] [js ''/admin''] (js ''   ''))
     = (exampleForm [] [] [js ''/admin''] (js ''   ''), [])"
proof -
  have t1: "trim (js '' .pdf '') = js ''.pdf''" by code_simp
  have t2: "trim (js '' /admin'') = js ''/admin''" by code_simp
  have t3: "trim (js ''   '') = []" by code_simp
  have n: "js ''.pdf'' \<noteq> [] \<and> js ''.pdf'' \<noteq> js ''/admin''" by (simp add: js_def)
  show ?thesis
    using filter_add_remove_round_trip
        [of "exampleForm [] [] [js ''/admin''] (js '' .pdf '')" "[js ''/admin'']"]
      filter_add_remove_round_trip
        [of "exampleForm [] [] [js ''/admin''] (js '' /admin'')" "[js ''/admin'']"]
      filter_add_remove_round_trip
        [of "exampleForm [] [] [js ''/admin''] (js ''   '')" "[js ''/admin'']"]
      n
    by (simp add: exampleForm_def t1 t2 t3)
qed


section \<open>Submitting the form\<close>

lemma or_else_nonempty: "d \<noteq> [] \<Longrightarrow> or_else v d \<noteq> []"
  by (simp add: or_else_def split: option.splits)

lemma exampleForm_valid:
  "fst (validateForm (URL_new exampleHostOK)
     (exampleForm (js ''https://example.com'') (js ''key'') [js ''/blog''] []))"
  by code_simp

text \<open>
  C10. When the form passes validation, so that the creation request is sent, and the
  request comes back with an error response or throws, then after \<open>handleSubmit\<close> has
  run to its end the form data and the filter input are what they were before the
  submission, \<open>success\<close> and \<open>isLoading\<close> are false, \<open>error\<close> holds a non-empty message,
  and neither the reset timer nor the parent's callback has been triggered.
\<close>

theorem handleSubmit_failure_keeps_form:
  assumes "fst (validateForm new_URL st)"
    and "response \<noteq> CreateOk"
  shows "snd (handleSubmit new_URL st) = [ApiCrawlCreateCrawl (formData st)]
     \<and> formData (fst (handleSubmit_resume response (fst (handleSubmit new_URL st))))
         = formData st
     \<and> urlFilterInput (fst (handleSubmit_resume response (fst (handleSubmit new_URL st))))
         = urlFilterInput st
     \<and> \<not> success (fst (handleSubmit_resume response (fst (handleSubmit new_URL st))))
     \<and> \<not> isLoading (fst (handleSubmit_resume response (fst (handleSubmit new_URL st))))
     \<and> (\<exists>msg. error (fst (handleSubmit_resume response (fst (handleSubmit new_URL st))))
                 = Some msg \<and> msg \<noteq> [])
     \<and> snd (handleSubmit_resume response (fst (handleSubmit new_URL st))) = []"
  using assms
  by (cases response)
    (auto simp: handleSubmit_def handleSubmit_resume_def validateForm_def Let_def
      or_else_nonempty js_def)

theorem handleSubmit_failure_keeps_form_witness:
  "snd (handleSubmit (URL_new exampleHostOK)
          (exampleForm (js ''https://example.com'') (js ''key'') [js ''/blog''] []))
     = [ApiCrawlCreateCrawl \<lparr>website_url = js ''https://example.com'', gemini_api_key = js ''key'',
                             url_filters = Some [js ''/blog'']\<rparr>]
   \<and> formData (fst (handleSubmit_resume (CreateError None)
         (fst (handleSubmit (URL_new exampleHostOK)
           (exampleForm (js ''https://example.com'') (js ''key'') [js ''/blog''] [])))))
     = \<lparr>website_url = js ''https://example.com'', gemini_api_key = js ''key'',
        url_filters = Some [js ''/blog'']\<rparr>
   \<and> error (fst (handleSubmit_resume (CreateError None)
         (fst (handleSubmit (URL_new exampleHostOK)
           (exampleForm (js ''https://example.com'') (js ''key'') [js ''/blog''] [])))))
     = Some (js ''Failed to create crawl'')"
  using handleSubmit_failure_keeps_form [OF exampleForm_valid, of "CreateError None"]
  by (simp add: exampleForm_def handleSubmit_resume_def or_else_def handleSubmit_def
      validateForm_def Let_def)

section \<open>Validation of the seed URL\<close>

lemma website_url_accepted_iff:
  "website_url_accepted new_URL fd \<longleftrightarrow> website_url fd \<noteq> [] \<and> new_URL (website_url fd) \<noteq> None"
  by (cases "website_url fd = []"; cases "gemini_api_key fd = []"; cases "new_URL (website_url fd)")
    (simp_all add: website_url_accepted_def validateForm_errors_def)

lemma validateForm_iff:
  "fst (validateForm new_URL st) \<longleftrightarrow>
     website_url_accepted new_URL (formData st) \<and> gemini_api_key (formData st) \<noteq> []"
  by (cases "website_url (formData st) = []"; cases "gemini_api_key (formData st) = []";
      cases "new_URL (website_url (formData st))")
    (simp_all add: validateForm_def website_url_accepted_def validateForm_errors_def)

lemma website_url_rejected_message:
  "\<not> website_url_accepted new_URL fd \<Longrightarrow>
   \<exists>m. map_of (validateForm_errors new_URL fd) ''website_url'' = Some m \<and> m \<noteq> []"
  by (cases "website_url fd = []"; cases "gemini_api_key fd = []"; cases "new_URL (website_url fd)")
    (simp_all add: website_url_accepted_def validateForm_errors_def js_def)

lemma handleSubmit_rejected:
  "\<not> fst (validateForm new_URL st) \<Longrightarrow>
   handleSubmit new_URL st = (st\<lparr>validationErrors := validateForm_errors new_URL (formData st)\<rparr>, [])"
  by (simp add: handleSubmit_def validateForm_def Let_def)

lemma step_requests:
  "ApiCrawlCreateCrawl body \<in> set (snd (step new_URL cfg ev)) \<Longrightarrow>
   ApiCrawlCreateCrawl body \<in> set (snd cfg) \<or> website_url_accepted new_URL body"
proof -
  assume a: "ApiCrawlCreateCrawl body \<in> set (snd (step new_URL cfg ev))"
  obtain st out where d: "dispatch new_URL (fst cfg) ev = (st, out)"
    by (cases "dispatch new_URL (fst cfg) ev")
  from a d have "ApiCrawlCreateCrawl body \<in> set (snd cfg) \<or> ApiCrawlCreateCrawl body \<in> set out"
    by (auto simp: step_def)
  moreover have "website_url_accepted new_URL body" if "ApiCrawlCreateCrawl body \<in> set out"
    using dispatch_requests [of body new_URL "fst cfg" ev] d that
    by (simp add: validateForm_iff)
  ultimately show ?thesis by blast
qed

lemma foldl_step_requests:
  "ApiCrawlCreateCrawl body \<in> set (snd (foldl (step new_URL) cfg evs)) \<Longrightarrow>
   ApiCrawlCreateCrawl body \<in> set (snd cfg) \<or> website_url_accepted new_URL body"
proof (induction evs arbitrary: cfg)
  case Nil
  then show ?case by simp
next
  case (Cons ev evs)
  from Cons.IH [of "step new_URL cfg ev"] Cons.prems
  have "ApiCrawlCreateCrawl body \<in> set (snd (step new_URL cfg ev)) \<or> website_url_accepted new_URL body"
    by simp
  then show ?case using step_requests [of body new_URL cfg ev] by blast
qed

lemma run_requests_accepted:
  "ApiCrawlCreateCrawl body \<in> set (snd (run new_URL evs)) \<Longrightarrow> website_url_accepted new_URL body"
  using foldl_step_requests [of body new_URL "(initialState, [])" evs]
  by (simp add: run_def)

text \<open>
  C1 (as amended). \<open>validateForm\<close> accepts the \<open>website_url\<close> exactly when it is non-empty
  and the URL constructor parses it, whatever its scheme; the whole validation passes
  exactly when, in addition, the API key is non-empty. When the \<open>website_url\<close> is
  rejected, \<open>validateForm\<close> records a non-empty message for it and \<open>handleSubmit\<close>
  returns without sending the creation request; in every run of the form, every
  creation request sent carries a \<open>website_url\<close> that was accepted.
\<close>

theorem validateForm_accepts_parsed_url:
  "(website_url_accepted new_URL (formData st) \<longleftrightarrow>
      website_url (formData st) \<noteq> [] \<and> new_URL (website_url (formData st)) \<noteq> None)
   \<and> (fst (validateForm new_URL st) \<longleftrightarrow>
      website_url_accepted new_URL (formData st) \<and> gemini_api_key (formData st) \<noteq> [])
   \<and> (\<not> website_url_accepted new_URL (formData st) \<longrightarrow>
        handleSubmit new_URL st
          = (st\<lparr>validationErrors := validateForm_errors new_URL (formData st)\<rparr>, [])
      \<and> (\<exists>m. map_of (validateForm_errors new_URL (formData st)) ''website_url'' = Some m
               \<and> m \<noteq> []))
   \<and> (\<forall>body. ApiCrawlCreateCrawl body \<in> set (snd (run new_URL evs)) \<longrightarrow>
        website_url_accepted new_URL body)"
  using website_url_accepted_iff [of new_URL "formData st"] validateForm_iff [of new_URL st]
    website_url_rejected_message [of new_URL "formData st"] handleSubmit_rejected [of new_URL st]
    run_requests_accepted [of _ new_URL evs]
  by blast

text \<open>
  The constructor parses a \<open>mailto:\<close> address without consulting the host parser.
\<close>

lemma URL_new_mailto:
  "URL_new hostOK (js ''mailto:admin@example.com'') = Some (URL (js ''mailto:''))"
  by (simp add: URL_new_def js_def isC0ControlOrSpace_def isAsciiTabOrNewline_def
      scheme_start_state_def isAsciiAlpha_def isAsciiDigit_def asciiLowercase_def
      isSpecialScheme_def)

text \<open>
  C1 as stated fails: \<open>mailto:admin@example.com\<close> parses, so \<open>validateForm\<close> accepts it
  and \<open>handleSubmit\<close> sends the creation request, but it is not an HTTP(S) URL.
\<close>

theorem validateForm_http_only_counterexample:
  "website_url_accepted (URL_new exampleHostOK)
     (formData (exampleForm (js ''mailto:admin@example.com'') (js ''key'') [] []))
   \<and> fst (validateForm (URL_new exampleHostOK)
       (exampleForm (js ''mailto:admin@example.com'') (js ''key'') [] []))
   \<and> snd (handleSubmit (URL_new exampleHostOK)
       (exampleForm (js ''mailto:admin@example.com'') (js ''key'') [] []))
     = [ApiCrawlCreateCrawl \<lparr>website_url = js ''mailto:admin@example.com'',
                             gemini_api_key = js ''key'', url_filters = Some []\<rparr>]
   \<and> \<not> isHttpUrl (URL_new exampleHostOK) (js ''mailto:admin@example.com'')"
  by code_simp


theorem validateForm_accepts_parsed_url_witness:
  "\<not> website_url_accepted (URL_new exampleHostOK)
       (formData (exampleForm (js ''example.com'') (js ''key'') [] []))
   \<and> handleSubmit (URL_new exampleHostOK) (exampleForm (js ''example.com'') (js ''key'') [] [])
     = ((exampleForm (js ''example.com'') (js ''key'') [] [])
          \<lparr>validationErrors := [(''website_url'', js ''Please enter a valid URL'')]\<rparr>, [])
   \<and> ApiCrawlCreateCrawl \<lparr>website_url = js ''https://example.com'', gemini_api_key = js ''key'',
                           url_filters = Some [js ''/blog'']\<rparr>
       \<in> set (snd (run (URL_new exampleHostOK) exampleEvents))
   \<and> website_url_accepted (URL_new exampleHostOK)
       \<lparr>website_url = js ''https://example.com'', gemini_api_key = js ''key'',
        url_filters = Some [js ''/blog'']\<rparr>"
proof -
  have n1: "\<not> website_url_accepted (URL_new exampleHostOK)
       (formData (exampleForm (js ''example.com'') (js ''key'') [] []))"
    by code_simp
  have e1: "validateForm_errors (URL_new exampleHostOK)
       (formData (exampleForm (js ''example.com'') (js ''key'') [] []))
     = [(''website_url'', js ''Please enter a valid URL'')]"
    by code_simp
  have n2: "website_url_accepted (URL_new exampleHostOK)
       \<lparr>website_url = js ''https://example.com'', gemini_api_key = js ''key'',
        url_filters = Some [js ''/blog'']\<rparr>"
    by code_simp
  show ?thesis
    using validateForm_accepts_parsed_url
      [of "URL_new exampleHostOK" "exampleForm (js ''example.com'') (js ''key'') [] []"
          exampleEvents]
      n1 e1 n2
    by (simp add: exampleRun)
qed

text \<open>
  What becomes of the message: the effect hook that follows the rejected submission
  finds a message for \<open>website_url\<close> and a non-empty field, and overwrites the message
  with the empty string. Only the message for an empty field stays.
\<close>

lemma rejected_url_message_cleared:
  assumes "website_url (formData st) \<noteq> []" and "new_URL (website_url (formData st)) = None"
    and "\<not> isLoading st" and "\<not> success st"
  shows "map_of (validationErrors (fst (step new_URL (st, tr) SubmitForm))) ''website_url''
           = Some []"
  using assms
  by (cases "gemini_api_key (formData st) = []")
    (simp_all add: step_def dispatch_def handleSubmit_def validateForm_def
      validateForm_errors_def clearValidationErrors_def truthy_def js_def Let_def)


section \<open>The search box\<close>

lemma loadCrawls_effects:
  "snd (loadCrawls api searchTerm st)
     = ApiCrawlListCrawls (case searchTerm of None \<Rightarrow> None | Some t \<Rightarrow> if t = [] then None else Some (Query t))
       # (if api (case searchTerm of None \<Rightarrow> None | Some t \<Rightarrow> if t = [] then None else Some (Query t)) = ListThrew
          then [ConsoleError] else [])"
  by (simp add: loadCrawls_def Let_def split: list_result.splits option.splits)

lemma loadCrawls_listing:
  "api (case searchTerm of None \<Rightarrow> None | Some t \<Rightarrow> if t = [] then None else Some (Query t)) = ListResponse (Some d)
   \<Longrightarrow> listing (fst (loadCrawls api searchTerm st)) = d"
  by (simp add: loadCrawls_def Let_def)

text \<open>
  C5. For every content \<open>s\<close> of the search box, the debounced search (and the refresh
  button, which does the same) sends one ListCrawls request: with the query
  \<open>{term: s.trim()}\<close> when the trimmed \<open>s\<close> is non-empty, and with no query at all when
  it is empty, which is when \<open>s\<close> is empty or all white space; in that case the
  listing shown is the one the service returns for the request without a term.
\<close>

theorem search_issues_trimmed_term:
  "snd (onSearch api s st)
     = ApiCrawlListCrawls (if trim s = [] then None else Some (Query (trim s)))
       # (if api (if trim s = [] then None else Some (Query (trim s))) = ListThrew
          then [ConsoleError] else [])
   \<and> handleRefresh api s st = onSearch api s st
   \<and> ((\<forall>c \<in> set s. isWhiteSpace c) \<longrightarrow>
        snd (onSearch api s st)
          = ApiCrawlListCrawls None # (if api None = ListThrew then [ConsoleError] else [])
      \<and> (\<forall>d. api None = ListResponse (Some d) \<longrightarrow> listing (fst (onSearch api s st)) = d))"
proof -
  have a: "snd (onSearch api s st)
     = ApiCrawlListCrawls (if trim s = [] then None else Some (Query (trim s)))
       # (if api (if trim s = [] then None else Some (Query (trim s))) = ListThrew
          then [ConsoleError] else [])"
    by (simp add: onSearch_def trimmedOrUndefined_def loadCrawls_effects)
  have b: "handleRefresh api s st = onSearch api s st"
    by (simp add: onSearch_def handleRefresh_def)
  have c: "(\<forall>c \<in> set s. isWhiteSpace c) \<longrightarrow>
        snd (onSearch api s st)
          = ApiCrawlListCrawls None # (if api None = ListThrew then [ConsoleError] else [])
      \<and> (\<forall>d. api None = ListResponse (Some d) \<longrightarrow> listing (fst (onSearch api s st)) = d)"
  proof
    assume "\<forall>c \<in> set s. isWhiteSpace c"
    then have t: "trim s = []" by (simp add: trim_empty_iff)
    with a have "snd (onSearch api s st)
          = ApiCrawlListCrawls None # (if api None = ListThrew then [ConsoleError] else [])"
      by simp
    moreover have "\<forall>d. api None = ListResponse (Some d) \<longrightarrow> listing (fst (onSearch api s st)) = d"
      using t loadCrawls_listing [of api None _ st]
      by (simp add: onSearch_def trimmedOrUndefined_def)
    ultimately show "snd (onSearch api s st)
          = ApiCrawlListCrawls None # (if api None = ListThrew then [ConsoleError] else [])
      \<and> (\<forall>d. api None = ListResponse (Some d) \<longrightarrow> listing (fst (onSearch api s st)) = d)"
      by simp
  qed
  from a b c show ?thesis by blast
qed

theorem search_issues_trimmed_term_witness:
  "snd (onSearch exampleApi (js '' example '') exampleDashboard)
     = [ApiCrawlListCrawls (Some (Query (js ''example'')))]
   \<and> snd (onSearch exampleApi (js ''   '') exampleDashboard) = [ApiCrawlListCrawls None]
   \<and> listing (fst (onSearch exampleApi (js ''   '') exampleDashboard))
     = \<lparr>count = 2, crawls = [1, 2]\<rparr>"
proof -
  have t1: "trim (js '' example '') = js ''example''" by code_simp
  have t2: "trim (js ''   '') = []" by code_simp
  have w: "\<forall>c \<in> set (js ''   ''). isWhiteSpace c" by (simp add: js_def isWhiteSpace_def)
  have n: "js ''example'' \<noteq> []" by (simp add: js_def)
  show ?thesis
    using search_issues_trimmed_term [of exampleApi "js '' example ''" exampleDashboard]
      search_issues_trimmed_term [of exampleApi "js ''   ''" exampleDashboard] w n
    by (simp add: t1 t2 exampleApi_def)
qed


section \<open>The job state machine\<close>

lemma job_step_outputs: "outputs_iff_completed j \<Longrightarrow> outputs_iff_completed (job_step j e)"
  by (cases "status j"; cases e) (auto simp: outputs_iff_completed_def job_step_def)

lemma job_run_outputs: "outputs_iff_completed j \<Longrightarrow> outputs_iff_completed (job_run j es)"
  unfolding job_run_def
  by (induction es arbitrary: j) (simp_all add: job_step_outputs)

text \<open>
  C3. In the job controller as the specification describes it, at every point of every
  job's life the summary document is set exactly when the status is \<open>completed\<close>, and
  so is the full document: the job never has exactly one of the two.
\<close>

theorem output_documents_atomic:
  "(summary_doc (job_run (newJob u fs) es) \<noteq> None) = (status (job_run (newJob u fs) es) = completed)
   \<and> (full_doc (job_run (newJob u fs) es) \<noteq> None) = (status (job_run (newJob u fs) es) = completed)"
  using job_run_outputs [of "newJob u fs" es]
  by (simp add: outputs_iff_completed_def newJob_def)

theorem output_documents_atomic_witness:
  "status (job_run exampleJob [Start, PageProcessed, Complete (js ''llms.txt'') (js ''llms-full.txt'')]) = completed
   \<and> summary_doc (job_run exampleJob [Start, PageProcessed, Complete (js ''llms.txt'') (js ''llms-full.txt'')]) = Some (js ''llms.txt'')
   \<and> full_doc (job_run exampleJob [Start, PageProcessed, Complete (js ''llms.txt'') (js ''llms-full.txt'')]) = Some (js ''llms-full.txt'')
   \<and> status (job_run exampleJob [Start, PageProcessed, Fail GenerationFailed]) = failed
   \<and> summary_doc (job_run exampleJob [Start, PageProcessed, Fail GenerationFailed]) = None
   \<and> full_doc (job_run exampleJob [Start, PageProcessed, Fail GenerationFailed]) = None"
  using output_documents_atomic [of "js ''https://example.com''" "[js ''.pdf'']" "[Start, PageProcessed, Complete (js ''llms.txt'') (js ''llms-full.txt'')]"]
    output_documents_atomic [of "js ''https://example.com''" "[js ''.pdf'']" "[Start, PageProcessed, Fail GenerationFailed]"]
  by (simp add: exampleJob_def job_run_def job_step_def newJob_def)

text \<open>
  What the crawl list shows of a job of the specification: for a job in any state the
  controller can reach, whose two handles (when set) are non-empty, the card offers no
  download unless the job is completed, and then both buttons open their documents.
\<close>

lemma asciiToLowerCase_status_name: "asciiToLowerCase (status_name s) = status_name s"
  by (cases s) (simp_all add: status_name_def asciiToLowerCase_def asciiLowercase_def js_def)

lemma status_name_completed: "status_name s = js ''completed'' \<longleftrightarrow> s = completed"
  by (cases s) (simp_all add: status_name_def js_def)

lemma downloadSection_job_run:
  assumes "s \<noteq> []" and "f \<noteq> []"
    and "\<forall>e \<in> set es. \<forall>s' f'. e = Complete s' f' \<longrightarrow> s' = s \<and> f' = f"
  shows "downloadSection asciiToLowerCase (status_name (status (job_run (newJob u fs) es)))
           (summary_doc (job_run (newJob u fs) es)) (full_doc (job_run (newJob u fs) es))
         = (if status (job_run (newJob u fs) es) = completed
            then Some (Opens s, Opens f) else None)"
proof -
  have inv: "(status j = completed \<longrightarrow> summary_doc j = Some s \<and> full_doc j = Some f)
       \<Longrightarrow> \<forall>e \<in> set es. \<forall>s' f'. e = Complete s' f' \<longrightarrow> s' = s \<and> f' = f
       \<Longrightarrow> status (job_run j es) = completed
       \<Longrightarrow> summary_doc (job_run j es) = Some s \<and> full_doc (job_run j es) = Some f" for j
    unfolding job_run_def
  proof (induction es arbitrary: j)
    case Nil
    then show ?case by simp
  next
    case (Cons e es)
    have "status (job_step j e) = completed \<longrightarrow>
            summary_doc (job_step j e) = Some s \<and> full_doc (job_step j e) = Some f"
      using Cons.prems(1) Cons.prems(2)
      by (cases "status j"; cases e) (auto simp: job_step_def)
    then show ?case using Cons.IH [of "job_step j e"] Cons.prems(2) Cons.prems(3) by simp
  qed
  show ?thesis
    using inv [of "newJob u fs"] assms
    by (auto simp: downloadSection_def downloadButton_def asciiToLowerCase_status_name
        status_name_completed newJob_def)
qed

lemma getStatusConfig_status_name:
  "label (getStatusConfig asciiToLowerCase (status_name s))
     = (case s of pending \<Rightarrow> js ''Pending'' | in_progress \<Rightarrow> js ''In Progress''
        | completed \<Rightarrow> js ''Completed'' | failed \<Rightarrow> js ''Failed'')"
  by (cases s) (simp_all add: getStatusConfig_def status_name_def asciiToLowerCase_def asciiLowercase_def js_def)

lemma job_step_terminal: "terminal (status j) \<Longrightarrow> job_step j e = j"
  by (auto simp: terminal_def job_step_def)

lemma job_run_terminal: "terminal (status j) \<Longrightarrow> job_run j es = j"
  unfolding job_run_def
  by (induction es) (simp_all add: job_step_terminal)

text \<open>
  C4. In the job controller as the specification describes it, the status is always
  one of \<open>pending\<close>, \<open>in_progress\<close>, \<open>completed\<close> and \<open>failed\<close>, and once it is
  \<open>completed\<close> or \<open>failed\<close> it is the same after any further events.
\<close>

theorem terminal_status_is_final:
  "status (job_run (newJob u fs) es) \<in> {pending, in_progress, completed, failed}
   \<and> (terminal (status (job_run (newJob u fs) es)) \<longrightarrow>
        status (job_run (newJob u fs) (es @ es')) = status (job_run (newJob u fs) es))"
proof -
  have "status (job_run (newJob u fs) es) \<in> {pending, in_progress, completed, failed}"
    by (cases "status (job_run (newJob u fs) es)") simp_all
  moreover have "job_run (newJob u fs) (es @ es') = job_run (job_run (newJob u fs) es) es'"
    by (simp add: job_run_def)
  ultimately show ?thesis by (simp add: job_run_terminal)
qed

theorem terminal_status_is_final_witness:
  "terminal (status (job_run exampleJob [Start, CancelJob]))
   \<and> status (job_run exampleJob
        ([Start, CancelJob] @ [PageProcessed, Complete (js ''llms.txt'') (js ''llms-full.txt''), Start]))
     = failed
   \<and> failure (job_run exampleJob
        ([Start, CancelJob] @ [PageProcessed, Complete (js ''llms.txt'') (js ''llms-full.txt''), Start]))
     = Some Cancelled"
  using terminal_status_is_final [of "js ''https://example.com''" "[js ''.pdf'']" "[Start, CancelJob]"
      "[PageProcessed, Complete (js ''llms.txt'') (js ''llms-full.txt''), Start]"]
  by (simp add: exampleJob_def job_run_def job_step_def newJob_def terminal_def)

section \<open>The API key\<close>

lemma validateForm_errors_key_equiv:
  "key_equiv st st' \<Longrightarrow>
   validateForm_errors new_URL (formData st) = validateForm_errors new_URL (formData st')"
  by (simp add: key_equiv_def validateForm_errors_def)

lemma redact_eq:
  "key_equiv st st' \<Longrightarrow> redact_body (formData st) = redact_body (formData st')"
  by (cases "formData st"; cases "formData st'") (simp add: key_equiv_def redact_body_def)

lemma handleSubmit_key_equiv:
  assumes "key_equiv st st'"
  shows "key_equiv (fst (handleSubmit new_URL st)) (fst (handleSubmit new_URL st'))
     \<and> map redact (snd (handleSubmit new_URL st)) = map redact (snd (handleSubmit new_URL st'))"
  using assms validateForm_errors_key_equiv [OF assms, of new_URL] redact_eq [OF assms]
  by (simp add: handleSubmit_def validateForm_def Let_def redact_def key_equiv_def)

lemma handleAddUrlFilter_key_equiv:
  assumes "key_equiv st st'"
  shows "key_equiv (fst (handleAddUrlFilter st)) (fst (handleAddUrlFilter st'))
     \<and> map redact (snd (handleAddUrlFilter st)) = map redact (snd (handleAddUrlFilter st'))"
  using assms by (simp add: handleAddUrlFilter_def key_equiv_def redact_def)

lemma handleRemoveUrlFilter_key_equiv:
  assumes "key_equiv st st'"
  shows "key_equiv (fst (handleRemoveUrlFilter f st)) (fst (handleRemoveUrlFilter f st'))
     \<and> map redact (snd (handleRemoveUrlFilter f st)) = map redact (snd (handleRemoveUrlFilter f st'))"
  using assms by (simp add: handleRemoveUrlFilter_def key_equiv_def)

lemma handleSubmit_resume_key_equiv:
  assumes "key_equiv st st'"
  shows "key_equiv (fst (handleSubmit_resume r st)) (fst (handleSubmit_resume r st'))
     \<and> map redact (snd (handleSubmit_resume r st)) = map redact (snd (handleSubmit_resume r st'))"
  using assms by (cases r) (simp_all add: handleSubmit_resume_def key_equiv_def redact_def)

lemma resetAfterSuccess_key_equiv:
  assumes "key_equiv st st'"
  shows "key_equiv (fst (resetAfterSuccess st)) (fst (resetAfterSuccess st'))
     \<and> map redact (snd (resetAfterSuccess st)) = map redact (snd (resetAfterSuccess st'))"
  using assms by (simp add: resetAfterSuccess_def key_equiv_def redact_def)

lemma key_equiv_flags: "key_equiv st st' \<Longrightarrow> isLoading st = isLoading st' \<and> success st = success st' \<and> urlFilterInput st = urlFilterInput st'"
  by (simp add: key_equiv_def)

lemma dispatch_key_equiv:
  assumes "key_equiv st st'" and "same_up_to_key e e'"
  shows "key_equiv (fst (dispatch new_URL st e)) (fst (dispatch new_URL st' e'))
     \<and> map redact (snd (dispatch new_URL st e)) = map redact (snd (dispatch new_URL st' e'))"
proof (cases "\<exists>k k'. e = ChangeGeminiApiKey k \<and> e' = ChangeGeminiApiKey k'")
  case True
  then obtain k k' where e: "e = ChangeGeminiApiKey k" "e' = ChangeGeminiApiKey k'" by blast
  with assms(2) have "(k = []) = (k' = [])" by (simp add: same_up_to_key_def)
  with assms(1) e show ?thesis by (simp add: dispatch_def key_equiv_def)
next
  case False
  with assms(2) have ee: "e' = e"
    by (cases e; cases e') (simp_all add: same_up_to_key_def)
  note fl = key_equiv_flags [OF assms(1)]
  show ?thesis
  proof (cases e)
    case (ChangeGeminiApiKey k)
    with assms(1) ee show ?thesis by (simp add: dispatch_def key_equiv_def)
  next
    case (ChangeWebsiteUrl v)
    with assms(1) ee show ?thesis by (simp add: dispatch_def key_equiv_def)
  next
    case (ChangeUrlFilterInput v)
    with assms(1) ee show ?thesis by (simp add: dispatch_def key_equiv_def)
  next
    case PressEnterInFilterInput
    with assms(1) ee fl handleAddUrlFilter_key_equiv [OF assms(1)] show ?thesis by (simp add: dispatch_def)
  next
    case ClickAddFilter
    with assms(1) ee fl handleAddUrlFilter_key_equiv [OF assms(1)] show ?thesis by (simp add: dispatch_def)
  next
    case (ClickFilterBadge f)
    with assms(1) ee fl handleRemoveUrlFilter_key_equiv [OF assms(1), of f] show ?thesis by (simp add: dispatch_def)
  next
    case SubmitForm
    with assms(1) ee fl handleSubmit_key_equiv [OF assms(1), of new_URL] show ?thesis by (simp add: dispatch_def)
  next
    case (CreateCrawlSettled r)
    with assms(1) ee fl handleSubmit_resume_key_equiv [OF assms(1), of r] show ?thesis by (simp add: dispatch_def)
  next
    case ResetTimerFired
    with assms(1) ee fl resetAfterSuccess_key_equiv [OF assms(1)] show ?thesis by (simp add: dispatch_def)
  qed
qed

lemma clearValidationErrors_key_equiv:
  "key_equiv st st' \<Longrightarrow> key_equiv (clearValidationErrors st) (clearValidationErrors st')"
  by (simp add: clearValidationErrors_def key_equiv_def Let_def)

lemma step_key_equiv:
  assumes "key_equiv (fst cfg) (fst cfg')" and "map redact (snd cfg) = map redact (snd cfg')"
    and "same_up_to_key e e'"
  shows "key_equiv (fst (step new_URL cfg e)) (fst (step new_URL cfg' e'))
     \<and> map redact (snd (step new_URL cfg e)) = map redact (snd (step new_URL cfg' e'))"
  using dispatch_key_equiv [OF assms(1) assms(3), of new_URL] assms(2)
  by (simp add: step_def split_beta clearValidationErrors_key_equiv)

lemma foldl_step_key_equiv:
  assumes "list_all2 same_up_to_key evs evs'"
    and "key_equiv (fst cfg) (fst cfg')" and "map redact (snd cfg) = map redact (snd cfg')"
  shows "key_equiv (fst (foldl (step new_URL) cfg evs)) (fst (foldl (step new_URL) cfg' evs'))
     \<and> map redact (snd (foldl (step new_URL) cfg evs)) = map redact (snd (foldl (step new_URL) cfg' evs'))"
  using assms
proof (induction evs evs' arbitrary: cfg cfg' rule: list_all2_induct)
  case Nil
  then show ?case by simp
next
  case (Cons e es e' es')
  have "key_equiv (fst (step new_URL cfg e)) (fst (step new_URL cfg' e'))"
    and "map redact (snd (step new_URL cfg e)) = map redact (snd (step new_URL cfg' e'))"
    using step_key_equiv [OF Cons.prems(1) Cons.prems(2) Cons.hyps(1), of new_URL] by simp_all
  then show ?case using Cons.IH [of "step new_URL cfg e" "step new_URL cfg' e'"] by simp
qed

lemma successful_creation_resets:
  assumes "\<not> isLoading st" "\<not> success st" "fst (validateForm new_URL st)"
  shows "foldl (step new_URL) (st, tr) [SubmitForm, CreateCrawlSettled CreateOk, ResetTimerFired]
     = (st\<lparr>formData := \<lparr>website_url = [], gemini_api_key = [], url_filters = Some []\<rparr>,
           urlFilterInput := [], isLoading := False, error := None, success := False,
           validationErrors := []\<rparr>,
        tr @ [ApiCrawlCreateCrawl (formData st), SetTimeout 2000, OnCrawlCreated])"
  using assms
  by (simp add: step_def dispatch_def handleSubmit_def validateForm_def Let_def
      handleSubmit_resume_def resetAfterSuccess_def clearValidationErrors_def truthy_def)

text \<open>
  C7. The API key stays in the form state and in the body of the creation request.
  Two sessions on the form that differ only in the keys typed (both empty or both
  non-empty each time) end in states that agree in every field but the key, and what
  the form did in the two is the same once the key is blanked in the request bodies:
  nothing the form shows, calls or schedules depends on the key. And when an idle form
  that passes validation is submitted and the creation succeeds, the form sends that one
  request, arms the timer, and when the timer fires the key in the form state is the
  empty string.
\<close>

theorem api_key_confinement:
  "(list_all2 same_up_to_key evs evs' \<longrightarrow>
      key_equiv (fst (run new_URL evs)) (fst (run new_URL evs'))
    \<and> map redact (snd (run new_URL evs)) = map redact (snd (run new_URL evs')))
   \<and> (\<not> isLoading (fst (run new_URL evs)) \<and> \<not> success (fst (run new_URL evs))
       \<and> fst (validateForm new_URL (fst (run new_URL evs))) \<longrightarrow>
       gemini_api_key (formData (fst (run new_URL
          (evs @ [SubmitForm, CreateCrawlSettled CreateOk, ResetTimerFired])))) = []
     \<and> snd (run new_URL (evs @ [SubmitForm, CreateCrawlSettled CreateOk, ResetTimerFired]))
         = snd (run new_URL evs)
           @ [ApiCrawlCreateCrawl (formData (fst (run new_URL evs))), SetTimeout 2000, OnCrawlCreated])"
proof -
  have a: "list_all2 same_up_to_key evs evs' \<longrightarrow>
      key_equiv (fst (run new_URL evs)) (fst (run new_URL evs'))
    \<and> map redact (snd (run new_URL evs)) = map redact (snd (run new_URL evs'))"
    unfolding run_def
    using foldl_step_key_equiv [of evs evs' "(initialState, [])" "(initialState, [])" new_URL]
    by (simp add: key_equiv_def)
  have b: "\<not> isLoading (fst (run new_URL evs)) \<and> \<not> success (fst (run new_URL evs))
       \<and> fst (validateForm new_URL (fst (run new_URL evs))) \<longrightarrow>
       gemini_api_key (formData (fst (run new_URL
          (evs @ [SubmitForm, CreateCrawlSettled CreateOk, ResetTimerFired])))) = []
     \<and> snd (run new_URL (evs @ [SubmitForm, CreateCrawlSettled CreateOk, ResetTimerFired]))
         = snd (run new_URL evs)
           @ [ApiCrawlCreateCrawl (formData (fst (run new_URL evs))), SetTimeout 2000, OnCrawlCreated]"
  proof
    assume h: "\<not> isLoading (fst (run new_URL evs)) \<and> \<not> success (fst (run new_URL evs))
       \<and> fst (validateForm new_URL (fst (run new_URL evs)))"
    obtain st tr where c: "run new_URL evs = (st, tr)" by (cases "run new_URL evs")
    have "run new_URL (evs @ [SubmitForm, CreateCrawlSettled CreateOk, ResetTimerFired])
       = foldl (step new_URL) (st, tr) [SubmitForm, CreateCrawlSettled CreateOk, ResetTimerFired]"
      using c by (simp add: run_def)
    with h c successful_creation_resets [of st new_URL tr]
    show "gemini_api_key (formData (fst (run new_URL
          (evs @ [SubmitForm, CreateCrawlSettled CreateOk, ResetTimerFired])))) = []
     \<and> snd (run new_URL (evs @ [SubmitForm, CreateCrawlSettled CreateOk, ResetTimerFired]))
         = snd (run new_URL evs)
           @ [ApiCrawlCreateCrawl (formData (fst (run new_URL evs))), SetTimeout 2000, OnCrawlCreated]"
      by simp
  qed
  from a b show ?thesis by blast
qed


theorem api_key_confinement_witness:
  "list_all2 same_up_to_key exampleEvents (exampleSession (js ''another key'') @ [SubmitForm])
   \<and> map redact (snd (run (URL_new exampleHostOK) exampleEvents))
     = map redact (snd (run (URL_new exampleHostOK)
         (exampleSession (js ''another key'') @ [SubmitForm])))
   \<and> gemini_api_key (formData (fst (run (URL_new exampleHostOK) (exampleSession (js ''key'')))))
     = js ''key''
   \<and> gemini_api_key (formData (fst (run (URL_new exampleHostOK)
         (exampleSession (js ''key'')
            @ [SubmitForm, CreateCrawlSettled CreateOk, ResetTimerFired]))))
     = []"
proof -
  have s: "list_all2 same_up_to_key exampleEvents
             (exampleSession (js ''another key'') @ [SubmitForm])"
    by code_simp
  have i: "\<not> isLoading (fst (run (URL_new exampleHostOK) (exampleSession (js ''key''))))
     \<and> \<not> success (fst (run (URL_new exampleHostOK) (exampleSession (js ''key''))))
     \<and> fst (validateForm (URL_new exampleHostOK)
          (fst (run (URL_new exampleHostOK) (exampleSession (js ''key'')))))"
    by code_simp
  have k: "gemini_api_key (formData (fst (run (URL_new exampleHostOK)
             (exampleSession (js ''key''))))) = js ''key''"
    by code_simp
  show ?thesis
    using api_key_confinement [of exampleEvents
          "exampleSession (js ''another key'') @ [SubmitForm]" "URL_new exampleHostOK"]
      api_key_confinement [of "exampleSession (js ''key'')" "[]" "URL_new exampleHostOK"]
      s i k
    by simp
qed

end
